theory Spec2Isabelle
  imports Complex_Main "HOL-Library.Log_Nat"
begin

section \<open>Values exchanged with the client\<close>

text \<open>
  The worker of \<^verbatim>\<open>src/vibe25-worker/src/index.ts\<close> reads JSON request bodies and
  answers with \<^verbatim>\<open>c.json(body, status)\<close>. A JSON value is modelled by the datatype
  below; \<open>JUndefined\<close> stands for a property that is absent from the request body,
  and \<open>JNum q\<close> is a number whose decimal text has the value \<open>q\<close>.
\<close>

datatype json =
    JUndefined
  | JNull
  | JBool bool
  | JNum rat
  | JStr string
  | JArr "json list"
  | JObj "(string \<times> json) list"

text \<open>A response is the HTTP status code with the JSON body.\<close>

type_synonym response = "nat \<times> json"

definition json_ok :: "json \<Rightarrow> response" where
  "json_ok body = (200, body)"

definition json_error :: "string \<Rightarrow> nat \<Rightarrow> response" where
  "json_error msg st = (st, JObj [(''error'', JStr msg)])"

text \<open>
  Request fields that the handlers use as text are \<open>string option\<close> and the numeric
  fields of a heartbeat \<open>rat option\<close> (the finite number read from the body), with
  \<open>None\<close> for an absent (or null) property. The tests \<^verbatim>\<open>!x\<close> of the handlers hold
  for an absent value, the empty string and zero.
\<close>

definition truthy_str :: "string option \<Rightarrow> bool" where
  "truthy_str v = (case v of None \<Rightarrow> False | Some x \<Rightarrow> x \<noteq> [])"

definition truthy_num :: "rat option \<Rightarrow> bool" where
  "truthy_num v = (case v of None \<Rightarrow> False | Some x \<Rightarrow> x \<noteq> 0)"

definition str_of :: "string option \<Rightarrow> string" where
  "str_of v = (case v of None \<Rightarrow> [] | Some x \<Rightarrow> x)"

definition num_of :: "rat option \<Rightarrow> rat" where
  "num_of v = (case v of None \<Rightarrow> 0 | Some x \<Rightarrow> x)"

text \<open>
  \<^verbatim>\<open>v || d\<close> on a number that may be undefined or null: \<open>d\<close> replaces undefined, null
  and zero.
\<close>

definition or_num :: "rat option \<Rightarrow> rat \<Rightarrow> rat" where
  "or_num v d = (case v of None \<Rightarrow> d | Some x \<Rightarrow> if x = 0 then d else x)"

section \<open>JavaScript numbers\<close>

text \<open>
  A JavaScript number is an IEEE 754 double: a finite double, given by its exact
  rational value, or an infinity. \<^verbatim>\<open>NaN\<close> has no counterpart: \<^verbatim>\<open>JSON.parse\<close>
  never returns it, and no operation of the worker produces it from the numbers it is
  applied to. The two zeros are not told apart.
\<close>

datatype js_number = Fin rat | PosInf | NegInf

definition two_pow :: "int \<Rightarrow> rat" where
  "two_pow e = (if 0 \<le> e then 2 ^ nat e else 1 / 2 ^ nat (- e))"

text \<open>The binary exponent of a positive rational: \<open>2 ^ e \<le> a < 2 ^ (e + 1)\<close>.\<close>

definition floor_log2 :: "rat \<Rightarrow> int" where
  "floor_log2 a =
     (let d = bitlen (fst (quotient_of a)) - bitlen (snd (quotient_of a))
      in if two_pow d \<le> a then d else d - 1)"

definition round_half_even :: "rat \<Rightarrow> int" where
  "round_half_even m =
     (let n = \<lfloor>m\<rfloor>; f = m - of_int n
      in if f < 1 / 2 then n else if 1 / 2 < f then n + 1 else if even n then n else n + 1)"

definition js_signed :: "rat \<Rightarrow> js_number \<Rightarrow> js_number" where
  "js_signed x v =
     (if 0 \<le> x then v
      else case v of Fin r \<Rightarrow> Fin (- r) | PosInf \<Rightarrow> NegInf | NegInf \<Rightarrow> PosInf)"

text \<open>
  The double nearest to a rational, a tie going to the even significand (53 bits,
  exponents from \<open>-1022\<close> to \<open>1023\<close>, subnormals below); a magnitude that rounds to
  \<open>2 ^ 1024\<close> or more becomes an infinity. This is the rounding of every arithmetic
  operation on doubles, and of \<^verbatim>\<open>JSON.parse\<close> on the text of a number.
\<close>

definition to_double :: "rat \<Rightarrow> js_number" where
  "to_double x =
     (if x = 0 then Fin 0
      else
        let e = max (floor_log2 \<bar>x\<bar>) (- 1022)
        in if 1023 < e then js_signed x PosInf
           else
             let n = round_half_even (\<bar>x\<bar> / two_pow (e - 52))
             in if e = 1023 \<and> n = 2 ^ 53 then js_signed x PosInf
                else js_signed x (Fin (of_int n * two_pow (e - 52))))"

definition json_number :: "rat \<Rightarrow> js_number" where
  "json_number q = to_double q"

text \<open>\<^verbatim>\<open>x < y\<close>\<close>

fun js_less :: "js_number \<Rightarrow> js_number \<Rightarrow> bool" where
  "js_less (Fin a) (Fin b) = (a < b)"
| "js_less (Fin a) PosInf = True"
| "js_less NegInf (Fin b) = True"
| "js_less NegInf PosInf = True"
| "js_less x y = False"

text \<open>\<^verbatim>\<open>x * k\<close> and \<^verbatim>\<open>x / k\<close> for a positive constant \<open>k\<close> that is itself a double.\<close>

fun js_mul :: "js_number \<Rightarrow> rat \<Rightarrow> js_number" where
  "js_mul (Fin a) k = to_double (a * k)"
| "js_mul PosInf k = PosInf"
| "js_mul NegInf k = NegInf"

fun js_div :: "js_number \<Rightarrow> rat \<Rightarrow> js_number" where
  "js_div (Fin a) k = to_double (a / k)"
| "js_div PosInf k = PosInf"
| "js_div NegInf k = NegInf"

text \<open>
  \<^verbatim>\<open>Math.round\<close>: the nearest integer, a tie going towards plus infinity. The
  result is exact: the integer nearest to a double is a double.
\<close>

fun js_round :: "js_number \<Rightarrow> js_number" where
  "js_round (Fin x) = Fin (of_int \<lfloor>x + 1 / 2\<rfloor>)"
| "js_round PosInf = PosInf"
| "js_round NegInf = NegInf"

text \<open>\<^verbatim>\<open>a - y\<close> and \<^verbatim>\<open>a + y\<close> for a finite double \<open>a\<close>.\<close>

fun js_sub :: "rat \<Rightarrow> js_number \<Rightarrow> js_number" where
  "js_sub a (Fin b) = to_double (a - b)"
| "js_sub a PosInf = NegInf"
| "js_sub a NegInf = PosInf"

fun js_add :: "rat \<Rightarrow> js_number \<Rightarrow> js_number" where
  "js_add a (Fin b) = to_double (a + b)"
| "js_add a PosInf = PosInf"
| "js_add a NegInf = NegInf"

section \<open>Values bound to a statement\<close>

text \<open>
  The client of the store is not part of the source. Its \<^verbatim>\<open>bind\<close> takes numbers,
  strings, booleans (as 1 and 0), null and arrays of bytes, and throws on any other
  value; a number is sent to the store as JSON, where an infinity becomes null. A column
  holding a number is therefore \<open>rat option\<close>, with \<open>None\<close> for NULL.
\<close>

definition d1_num :: "js_number \<Rightarrow> rat option" where
  "d1_num x = (case x of Fin a \<Rightarrow> Some a | _ \<Rightarrow> None)"

definition sql_json :: "rat option \<Rightarrow> json" where
  "sql_json v = (case v of None \<Rightarrow> JNull | Some x \<Rightarrow> JNum x)"

definition d1_byte :: "json \<Rightarrow> bool" where
  "d1_byte v =
     (case v of
        JNum q \<Rightarrow> (case json_number q of Fin x \<Rightarrow> 0 \<le> x \<and> x < 256 | _ \<Rightarrow> False)
      | _ \<Rightarrow> False)"

definition d1_bindable :: "json \<Rightarrow> bool" where
  "d1_bindable v =
     (case v of
        JUndefined \<Rightarrow> False
      | JObj kvs \<Rightarrow> False
      | JArr xs \<Rightarrow> list_all d1_byte xs
      | _ \<Rightarrow> True)"

definition d1_value :: "json \<Rightarrow> json" where
  "d1_value v =
     (case v of
        JBool b \<Rightarrow> JNum (if b then 1 else 0)
      | JNum q \<Rightarrow> sql_json (d1_num (json_number q))
      | _ \<Rightarrow> v)"

section \<open>Tables\<close>

text \<open>
  The four tables of the store, each a list of rows in insertion order. The schema is
  not part of the source: no uniqueness constraint is built into the tables, and a
  \<^verbatim>\<open>SELECT ... .first()\<close> takes the first matching row in insertion order.
  The job status is only ever written by the worker, as one of three literals.
\<close>

datatype job_status = QUEUED | RUNNING | FINISHED

fun status_str :: "job_status \<Rightarrow> string" where
  "status_str QUEUED = ''QUEUED''"
| "status_str RUNNING = ''RUNNING''"
| "status_str FINISHED = ''FINISHED''"

record device =
  d_id :: string
  d_user_id :: string
  d_url :: string
  d_cpu_cores :: rat
  d_cpu_load :: rat
  d_ram_total :: rat
  d_ram_used :: rat
  d_disk_free :: rat
  d_status :: string
  d_last_seen :: string

record job =
  j_id :: string
  j_requester :: string
  j_device_id :: string
  j_filename :: string
  j_lang :: string
  j_code :: string
  j_status :: job_status
  j_cost_usd :: json
  j_stdoutt :: string
  j_stderr :: string

record ledger_entry =
  l_id :: string
  l_job_id :: string
  l_from_user :: string
  l_to_user :: string
  l_amount_cents :: "rat option"
  l_created_at :: string

record budget =
  b_user_id :: string
  b_spent_cents :: "rat option"
  b_earned_cents :: "rat option"

record db =
  devices :: "device list"
  jobs :: "job list"
  ledger :: "ledger_entry list"
  budgets :: "budget list"

definition empty_db :: db where
  "empty_db = \<lparr>devices = [], jobs = [], ledger = [], budgets = []\<rparr>"

section \<open>POST /heartbeat\<close>

record heartbeat_req =
  hb_user_id :: "string option"
  hb_url :: "string option"
  hb_cpu_cores :: "rat option"
  hb_cpu_load :: "rat option"
  hb_ram_total :: "rat option"
  hb_ram_used :: "rat option"
  hb_disk_free :: "rat option"
  hb_status :: "string option"

definition hb_valid :: "heartbeat_req \<Rightarrow> bool" where
  "hb_valid r \<longleftrightarrow>
     truthy_str (hb_user_id r) \<and> truthy_str (hb_url r) \<and> truthy_num (hb_cpu_cores r) \<and>
     truthy_num (hb_cpu_load r) \<and> truthy_num (hb_ram_total r) \<and>
     truthy_num (hb_ram_used r) \<and> truthy_num (hb_disk_free r) \<and> truthy_str (hb_status r)"

text \<open>The row that both the UPDATE and the INSERT of the handler write.\<close>

definition hb_row :: "heartbeat_req \<Rightarrow> string \<Rightarrow> string \<Rightarrow> device" where
  "hb_row r ident now =
     \<lparr>d_id = ident, d_user_id = str_of (hb_user_id r), d_url = str_of (hb_url r),
      d_cpu_cores = num_of (hb_cpu_cores r), d_cpu_load = num_of (hb_cpu_load r),
      d_ram_total = num_of (hb_ram_total r), d_ram_used = num_of (hb_ram_used r),
      d_disk_free = num_of (hb_disk_free r), d_status = str_of (hb_status r),
      d_last_seen = now\<rparr>"

definition update_device :: "heartbeat_req \<Rightarrow> string \<Rightarrow> string \<Rightarrow> device \<Rightarrow> device" where
  "update_device r ident now d =
     d\<lparr>d_id := ident, d_url := str_of (hb_url r), d_cpu_cores := num_of (hb_cpu_cores r),
       d_cpu_load := num_of (hb_cpu_load r), d_ram_total := num_of (hb_ram_total r),
       d_ram_used := num_of (hb_ram_used r), d_disk_free := num_of (hb_disk_free r),
       d_status := str_of (hb_status r), d_last_seen := now\<rparr>"

text \<open>
  \<open>ident\<close> is the value of \<^verbatim>\<open>Date.now().toString() + Math.random()...\<close> and \<open>now\<close>
  the ISO timestamp; both come from the environment and are arguments here.
\<close>

definition heartbeat :: "heartbeat_req \<Rightarrow> string \<Rightarrow> string \<Rightarrow> db \<Rightarrow> response \<times> db" where
  "heartbeat r ident now s =
     (if \<not> hb_valid r then (json_error ''Missing required fields'' 400, s)
      else
        let user_id = str_of (hb_user_id r);
            existingDevice = find (\<lambda>d. d_user_id d = user_id) (devices s)
        in case existingDevice of
             Some _ \<Rightarrow>
               (json_ok (JObj [(''success'', JBool True)]),
                s\<lparr>devices := map (\<lambda>d. if d_user_id d = user_id
                                       then update_device r ident now d else d) (devices s)\<rparr>)
           | None \<Rightarrow>
               (json_ok (JObj [(''success'', JBool True)]),
                s\<lparr>devices := devices s @ [hb_row r ident now]\<rparr>))"

section \<open>GET /devices and GET /jobs/:user_id\<close>

definition device_json :: "device \<Rightarrow> json" where
  "device_json d =
     JObj [(''url'', JStr (d_url d)), (''cpu_cores'', JNum (d_cpu_cores d)),
           (''cpu_load'', JNum (d_cpu_load d)), (''ram_total'', JNum (d_ram_total d)),
           (''ram_used'', JNum (d_ram_used d)), (''disk_free'', JNum (d_disk_free d)),
           (''user_id'', JStr (d_user_id d))]"

definition list_devices :: "db \<Rightarrow> response \<times> db" where
  "list_devices s =
     (json_ok (JArr (map device_json (filter (\<lambda>d. d_status d = ''ACTIVE'') (devices s)))), s)"

text \<open>The columns selected by the handler, in its order: the fifth is \<^verbatim>\<open>stdoutt\<close>.\<close>

definition job_json :: "job \<Rightarrow> json" where
  "job_json j =
     JObj [(''id'', JStr (j_id j)), (''filename'', JStr (j_filename j)),
           (''lang'', JStr (j_lang j)), (''status'', JStr (status_str (j_status j))),
           (''stdoutt'', JStr (j_stdoutt j)), (''stderr'', JStr (j_stderr j))]"

definition list_jobs :: "string \<Rightarrow> db \<Rightarrow> response \<times> db" where
  "list_jobs user_id s =
     (json_ok (JArr (map job_json (filter (\<lambda>j. j_requester j = user_id) (jobs s)))), s)"

section \<open>GET /check-for-jobs/:user_id\<close>

definition queued_json :: "job \<Rightarrow> json" where
  "queued_json j =
     JObj [(''id'', JStr (j_id j)), (''lang'', JStr (j_lang j)),
           (''code'', JStr (j_code j)), (''filename'', JStr (j_filename j))]"

definition check_for_jobs :: "string \<Rightarrow> db \<Rightarrow> response \<times> db" where
  "check_for_jobs user_id s =
     (case find (\<lambda>j. j_device_id j = user_id \<and> j_status j = QUEUED) (jobs s) of
        None \<Rightarrow> (json_ok (JObj [(''job'', JNull)]), s)
      | Some queuedJob \<Rightarrow>
          (json_ok (JObj [(''job'', queued_json queuedJob)]),
           s\<lparr>jobs := map (\<lambda>j. if j_id j = j_id queuedJob
                               then j\<lparr>j_status := RUNNING\<rparr> else j) (jobs s)\<rparr>))"

section \<open>POST /submit-job\<close>

record submit_req =
  sj_requester :: "string option"
  sj_device_id :: "string option"
  sj_filename :: "string option"
  sj_lang :: "string option"
  sj_code :: "string option"
  sj_cost_usd :: json

definition sj_present :: "submit_req \<Rightarrow> bool" where
  "sj_present r \<longleftrightarrow>
     truthy_str (sj_requester r) \<and> truthy_str (sj_device_id r) \<and>
     truthy_str (sj_filename r) \<and> truthy_str (sj_lang r) \<and> truthy_str (sj_code r) \<and>
     sj_cost_usd r \<noteq> JUndefined"

definition sj_lang_ok :: "submit_req \<Rightarrow> bool" where
  "sj_lang_ok r \<longleftrightarrow> sj_lang r = Some ''python'' \<or> sj_lang r = Some ''javascript''"

text \<open>The message \<^verbatim>\<open>Language must be either 'python' or 'javascript'\<close>.\<close>

definition lang_error_msg :: string where
  "lang_error_msg =
     ''Language must be either '' @ [CHR 0x27] @ ''python'' @ [CHR 0x27] @ '' or '' @
     [CHR 0x27] @ ''javascript'' @ [CHR 0x27]"

definition new_job :: "submit_req \<Rightarrow> string \<Rightarrow> job" where
  "new_job r ident =
     \<lparr>j_id = ident, j_requester = str_of (sj_requester r),
      j_device_id = str_of (sj_device_id r), j_filename = str_of (sj_filename r),
      j_lang = str_of (sj_lang r), j_code = str_of (sj_code r), j_status = QUEUED,
      j_cost_usd = d1_value (sj_cost_usd r), j_stdoutt = [], j_stderr = []\<rparr>"

definition insert_job :: "job \<Rightarrow> db \<Rightarrow> db" where
  "insert_job j s = s\<lparr>jobs := jobs s @ [j]\<rparr>"

text \<open>\<^verbatim>\<open>UPDATE devices SET status = ? WHERE user_id = ?\<close>\<close>

definition set_device_status :: "string \<Rightarrow> string \<Rightarrow> db \<Rightarrow> db" where
  "set_device_status st user_id s =
     s\<lparr>devices := map (\<lambda>d. if d_user_id d = user_id then d\<lparr>d_status := st\<rparr> else d)
                       (devices s)\<rparr>"

text \<open>The literal \<^verbatim>\<open>0.01\<close> is the double nearest to one hundredth.\<close>

definition amountCents :: "js_number \<Rightarrow> js_number" where
  "amountCents cost_usd =
     (if js_less cost_usd (json_number (1 / 100))
      then js_div (js_round (js_mul cost_usd 10000)) 100
      else js_round (js_mul cost_usd 100))"

definition insert_ledger :: "ledger_entry \<Rightarrow> db \<Rightarrow> db" where
  "insert_ledger e s = s\<lparr>ledger := ledger s @ [e]\<rparr>"

definition select_budget :: "string \<Rightarrow> db \<Rightarrow> budget option" where
  "select_budget user_id s = find (\<lambda>b. b_user_id b = user_id) (budgets s)"

definition insert_budget :: "budget \<Rightarrow> db \<Rightarrow> db" where
  "insert_budget b s = s\<lparr>budgets := budgets s @ [b]\<rparr>"

definition update_spent :: "rat option \<Rightarrow> string \<Rightarrow> db \<Rightarrow> db" where
  "update_spent v user_id s =
     s\<lparr>budgets := map (\<lambda>b. if b_user_id b = user_id then b\<lparr>b_spent_cents := v\<rparr> else b)
                       (budgets s)\<rparr>"

definition update_earned :: "rat option \<Rightarrow> string \<Rightarrow> db \<Rightarrow> db" where
  "update_earned v user_id s =
     s\<lparr>budgets := map (\<lambda>b. if b_user_id b = user_id then b\<lparr>b_earned_cents := v\<rparr> else b)
                       (budgets s)\<rparr>"

text \<open>The sender's half of the budget update: select, insert \<open>(0, 0)\<close> if missing, write.\<close>

definition charge_sender :: "string \<Rightarrow> js_number \<Rightarrow> db \<Rightarrow> db" where
  "charge_sender requester amt s =
     (let senderBudget = select_budget requester s;
          s1 = (case senderBudget of
                  None \<Rightarrow> insert_budget
                            \<lparr>b_user_id = requester, b_spent_cents = Some 0,
                             b_earned_cents = Some 0\<rparr> s
                | Some _ \<Rightarrow> s)
      in update_spent
           (d1_num (js_sub (or_num (Option.bind senderBudget b_spent_cents) 0) amt))
           requester s1)"

text \<open>The receiver's half: select, insert \<open>(0, 1000)\<close> if missing, write.\<close>

definition credit_receiver :: "string \<Rightarrow> js_number \<Rightarrow> db \<Rightarrow> db" where
  "credit_receiver device_id amt s =
     (let receiverBudget = select_budget device_id s;
          s1 = (case receiverBudget of
                  None \<Rightarrow> insert_budget
                            \<lparr>b_user_id = device_id, b_spent_cents = Some 0,
                             b_earned_cents = Some 1000\<rparr> s
                | Some _ \<Rightarrow> s)
      in update_earned
           (d1_num (js_add (or_num (Option.bind receiverBudget b_earned_cents) 1000) amt))
           device_id s1)"

text \<open>
  \<open>ident\<close> and \<open>ledgerId\<close> are the two generated identifiers and \<open>epochTimestamp\<close>
  the clock reading. The statements run in the order of the handler: the job row is
  inserted and the device set to BUSY before \<^verbatim>\<open>cost_usd\<close> is tested. The first
  \<^verbatim>\<open>bind\<close> is given \<^verbatim>\<open>cost_usd\<close> as it came: when it throws, nothing has been
  written and the \<^verbatim>\<open>catch\<close> of the handler answers 500.
\<close>

definition submit_job ::
  "submit_req \<Rightarrow> string \<Rightarrow> string \<Rightarrow> string \<Rightarrow> db \<Rightarrow> response \<times> db" where
  "submit_job r ident ledgerId epochTimestamp s =
     (if \<not> sj_present r then (json_error ''Missing required fields'' 400, s)
      else if \<not> sj_lang_ok r
      then (json_error lang_error_msg 400, s)
      else if \<not> d1_bindable (sj_cost_usd r)
      then (json_error ''Internal server error'' 500, s)
      else
        let requester = str_of (sj_requester r);
            device_id = str_of (sj_device_id r);
            s1 = insert_job (new_job r ident) s;
            s2 = set_device_status ''BUSY'' device_id s1
        in case sj_cost_usd r of
             JNum q \<Rightarrow>
               let amt = amountCents (json_number q);
                   s3 = insert_ledger
                          \<lparr>l_id = ledgerId, l_job_id = ident, l_from_user = requester,
                           l_to_user = device_id, l_amount_cents = d1_num amt,
                           l_created_at = epochTimestamp\<rparr> s2;
                   s4 = charge_sender requester amt s3;
                   s5 = credit_receiver device_id amt s4
               in (json_ok (JObj [(''success'', JBool True), (''job_id'', JStr ident)]), s5)
           | _ \<Rightarrow> (json_error ''Invalid cost_usd value'' 400, s2))"

section \<open>POST /update-job\<close>

record update_req =
  uj_job_id :: "string option"
  uj_stdout :: "string option"
  uj_stderr :: "string option"

text \<open>
  The second statement compares \<^verbatim>\<open>user_id\<close> with a scalar subquery, which is NULL
  (and matches no device) when no job has the id.
\<close>

definition update_job :: "update_req \<Rightarrow> db \<Rightarrow> response \<times> db" where
  "update_job r s =
     (if \<not> truthy_str (uj_job_id r) then (json_error ''Missing job_id'' 400, s)
      else
        let job_id = str_of (uj_job_id r);
            s1 = s\<lparr>jobs := map (\<lambda>j. if j_id j = job_id
                                     then j\<lparr>j_stdoutt := str_of (uj_stdout r),
                                            j_stderr := str_of (uj_stderr r),
                                            j_status := FINISHED\<rparr>
                                     else j) (jobs s)\<rparr>;
            s2 = (case find (\<lambda>j. j_id j = job_id) (jobs s1) of
                    None \<Rightarrow> s1
                  | Some j \<Rightarrow> set_device_status ''ACTIVE'' (j_device_id j) s1)
        in (json_ok (JObj [(''success'', JBool True)]), s2))"

section \<open>GET /get-budget/:user_id\<close>

definition get_budget :: "string \<Rightarrow> db \<Rightarrow> response \<times> db" where
  "get_budget user_id s =
     (case select_budget user_id s of
        None \<Rightarrow> (json_ok (JObj [(''spent_cents'', JNum 0), (''earned_cents'', JNum 1000)]), s)
      | Some budget \<Rightarrow>
          (json_ok (JObj [(''spent_cents'', sql_json (b_spent_cents budget)),
                          (''earned_cents'', sql_json (b_earned_cents budget))]), s))"

section \<open>Requests and runs\<close>

datatype request =
    Heartbeat heartbeat_req string string
  | ListDevices
  | ListJobs string
  | CheckForJobs string
  | SubmitJob submit_req string string string
  | UpdateJob update_req
  | GetBudget string

fun handle :: "request \<Rightarrow> db \<Rightarrow> response \<times> db" where
  "handle (Heartbeat r ident now) s = heartbeat r ident now s"
| "handle ListDevices s = list_devices s"
| "handle (ListJobs u) s = list_jobs u s"
| "handle (CheckForJobs u) s = check_for_jobs u s"
| "handle (SubmitJob r ident ledgerId epoch) s = submit_job r ident ledgerId epoch s"
| "handle (UpdateJob r) s = update_job r s"
| "handle (GetBudget u) s = get_budget u s"

fun run :: "request list \<Rightarrow> db \<Rightarrow> db" where
  "run [] s = s"
| "run (q # qs) s = run qs (snd (handle q s))"

section \<open>Predicates on states and runs\<close>

text \<open>A number of cents is whole when it equals its floor.\<close>

definition is_integer :: "rat \<Rightarrow> bool" where
  "is_integer x \<longleftrightarrow> of_int \<lfloor>x\<rfloor> = x"

text \<open>The position of a status on the line QUEUED, RUNNING, FINISHED.\<close>

fun status_rank :: "job_status \<Rightarrow> nat" where
  "status_rank QUEUED = 0"
| "status_rank RUNNING = 1"
| "status_rank FINISHED = 2"

definition job_status_of :: "string \<Rightarrow> db \<Rightarrow> job_status option" where
  "job_status_of job_id s = map_option j_status (find (\<lambda>j. j_id j = job_id) (jobs s))"


definition unique_jobs :: "db \<Rightarrow> bool" where
  "unique_jobs s \<longleftrightarrow> distinct (map j_id (jobs s))"

definition unique_budgets :: "db \<Rightarrow> bool" where
  "unique_budgets s \<longleftrightarrow> distinct (map b_user_id (budgets s))"

text \<open>
  A run has fresh job ids when the identifier generated for each submission is the id
  of no job present at that moment.
\<close>

fun fresh_ids :: "request list \<Rightarrow> db \<Rightarrow> bool" where
  "fresh_ids [] s = True"
| "fresh_ids (q # qs) s =
     ((case q of SubmitJob r ident ledgerId epoch \<Rightarrow> ident \<notin> set (map j_id (jobs s))
               | _ \<Rightarrow> True) \<and>
      fresh_ids qs (snd (handle q s)))"



text \<open>The ledger totals of a user, as sender and as receiver; NULL counts as nothing.\<close>

definition sum_from :: "string \<Rightarrow> db \<Rightarrow> rat" where
  "sum_from u s =
     sum_list (map (\<lambda>e. num_of (l_amount_cents e)) (filter (\<lambda>e. l_from_user e = u) (ledger s)))"

definition sum_to :: "string \<Rightarrow> db \<Rightarrow> rat" where
  "sum_to u s =
     sum_list (map (\<lambda>e. num_of (l_amount_cents e)) (filter (\<lambda>e. l_to_user e = u) (ledger s)))"

definition obj_keys :: "json \<Rightarrow> string list" where
  "obj_keys v = (case v of JObj kvs \<Rightarrow> map fst kvs | _ \<Rightarrow> [])"

section \<open>Sample requests and states\<close>

definition alice_req :: "json \<Rightarrow> submit_req" where
  "alice_req c =
     \<lparr>sj_requester = Some ''alice'', sj_device_id = Some ''bob'',
      sj_filename = Some ''a.py'', sj_lang = Some ''python'', sj_code = Some ''print(1)'',
      sj_cost_usd = c\<rparr>"

definition bob_req :: "json \<Rightarrow> submit_req" where
  "bob_req c =
     \<lparr>sj_requester = Some ''bob'', sj_device_id = Some ''alice'',
      sj_filename = Some ''b.js'', sj_lang = Some ''javascript'', sj_code = Some ''1+1'',
      sj_cost_usd = c\<rparr>"


definition bob_heartbeat :: "rat \<Rightarrow> heartbeat_req" where
  "bob_heartbeat load =
     \<lparr>hb_user_id = Some ''bob'', hb_url = Some ''https://bob.example'',
      hb_cpu_cores = Some 8, hb_cpu_load = Some load, hb_ram_total = Some 16,
      hb_ram_used = Some 4, hb_disk_free = Some 100, hb_status = Some ''ACTIVE''\<rparr>"

definition finish_req :: "string \<Rightarrow> update_req" where
  "finish_req job_id = \<lparr>uj_job_id = Some job_id, uj_stdout = Some ''1'', uj_stderr = None\<rparr>"

text \<open>Bob's device is registered and Alice has one job queued on it.\<close>

definition one_job_db :: db where
  "one_job_db =
     run [Heartbeat (bob_heartbeat (1 / 2)) ''d1'' ''2025-01-01T00:00:00.000Z'',
          SubmitJob (alice_req (JNum 1)) ''j1'' ''l1'' ''1735689600''] empty_db"

text \<open>Bob's device is registered and Alice has queued two jobs on it, \<open>j1\<close> first.\<close>

definition two_jobs_db :: db where
  "two_jobs_db =
     run [Heartbeat (bob_heartbeat (1 / 2)) ''d1'' ''2025-01-01T00:00:00.000Z'',
          SubmitJob (alice_req (JNum 1)) ''j1'' ''l1'' ''1735689600'',
          SubmitJob (alice_req (JNum 2)) ''j2'' ''l2'' ''1735689660''] empty_db"

section \<open>Helper lemmas\<close>

lemma find_unique_row:
  "distinct (map key rows) \<Longrightarrow> x \<in> set rows \<Longrightarrow> find (\<lambda>y. key y = key x) rows = Some x"
proof (induction rows)
  case Nil
  then show ?case by simp
next
  case (Cons a rows)
  show ?case
  proof (cases "key a = key x")
    case True
    with Cons.prems have "a = x" by (auto simp: image_iff)
    then show ?thesis by simp
  next
    case False
    with Cons show ?thesis by auto
  qed
qed

lemma find_absent_row:
  "k \<notin> set (map key rows) \<Longrightarrow> find (\<lambda>y. key y = k) rows = None"
  by (induction rows) auto

lemma update_absent_row:
  "k \<notin> set (map key rows) \<Longrightarrow> map (\<lambda>y. if key y = k then g y else y) rows = rows"
  by (induction rows) auto

section \<open>Budget query\<close>

text \<open>
  C7. GetBudget returns the stored \<open>spent_cents\<close> and \<open>earned_cents\<close> of the user's
  budget row when there is one (the table holding one row per user; a column that
  holds NULL is returned as null), returns exactly
  \<open>{spent_cents: 0, earned_cents: 1000}\<close> when there is none, and leaves every table
  as it was.
\<close>

theorem get_budget_read_only:
  "snd (get_budget u s) = s \<and>
   (\<forall>b \<in> set (budgets s). unique_budgets s \<and> b_user_id b = u \<longrightarrow>
      fst (get_budget u s) =
        (200, JObj [(''spent_cents'', case b_spent_cents b of None \<Rightarrow> JNull | Some x \<Rightarrow> JNum x),
                    (''earned_cents'',
                       case b_earned_cents b of None \<Rightarrow> JNull | Some x \<Rightarrow> JNum x)])) \<and>
   (u \<notin> set (map b_user_id (budgets s)) \<longrightarrow>
      fst (get_budget u s) =
        (200, JObj [(''spent_cents'', JNum 0), (''earned_cents'', JNum 1000)]))"
proof (intro conjI ballI impI)
  show "snd (get_budget u s) = s"
    by (simp add: get_budget_def split: option.splits)
next
  fix b
  assume b: "b \<in> set (budgets s)" and h: "unique_budgets s \<and> b_user_id b = u"
  then have "select_budget u s = Some b"
    using find_unique_row [of b_user_id "budgets s" b]
    by (simp add: select_budget_def unique_budgets_def)
  then show "fst (get_budget u s) =
        (200, JObj [(''spent_cents'', case b_spent_cents b of None \<Rightarrow> JNull | Some x \<Rightarrow> JNum x),
                    (''earned_cents'',
                       case b_earned_cents b of None \<Rightarrow> JNull | Some x \<Rightarrow> JNum x)])"
    by (simp add: get_budget_def json_ok_def sql_json_def)
next
  assume "u \<notin> set (map b_user_id (budgets s))"
  then have "select_budget u s = None"
    unfolding select_budget_def by (rule find_absent_row)
  then show "fst (get_budget u s) =
        (200, JObj [(''spent_cents'', JNum 0), (''earned_cents'', JNum 1000)])"
    by (simp add: get_budget_def json_ok_def)
qed

theorem get_budget_read_only_witness:
  "snd (get_budget ''bob'' one_job_db) = one_job_db \<and>
   unique_budgets one_job_db \<and>
   \<lparr>b_user_id = ''bob'', b_spent_cents = Some 0, b_earned_cents = Some 1100\<rparr> \<in> set (budgets one_job_db) \<and>
   fst (get_budget ''bob'' one_job_db) =
     (200, JObj [(''spent_cents'', JNum 0), (''earned_cents'', JNum 1100)]) \<and>
   ''carol'' \<notin> set (map b_user_id (budgets one_job_db)) \<and>
   fst (get_budget ''carol'' one_job_db) =
     (200, JObj [(''spent_cents'', JNum 0), (''earned_cents'', JNum 1000)])"
proof -
  have bs: "budgets one_job_db =
    [\<lparr>b_user_id = ''alice'', b_spent_cents = Some (- 100), b_earned_cents = Some 0\<rparr>,
     \<lparr>b_user_id = ''bob'', b_spent_cents = Some 0, b_earned_cents = Some 1100\<rparr>]"
    by code_simp
  have u: "unique_budgets one_job_db"
    by (simp add: unique_budgets_def bs)
  have m: "\<lparr>b_user_id = ''bob'', b_spent_cents = Some 0, b_earned_cents = Some 1100\<rparr>
             \<in> set (budgets one_job_db)"
    by (simp add: bs)
  have c: "''carol'' \<notin> set (map b_user_id (budgets one_job_db))"
    by (simp add: bs)
  from get_budget_read_only [of "''bob''" one_job_db] u m
  have 1: "snd (get_budget ''bob'' one_job_db) = one_job_db"
    and 2: "fst (get_budget ''bob'' one_job_db) =
     (200, JObj [(''spent_cents'', JNum 0), (''earned_cents'', JNum 1100)])"
    by auto
  from get_budget_read_only [of "''carol''" one_job_db] c
  have 3: "fst (get_budget ''carol'' one_job_db) =
     (200, JObj [(''spent_cents'', JNum 0), (''earned_cents'', JNum 1000)])"
    by blast
  from 1 2 3 u m c show ?thesis by blast
qed

section \<open>Frame lemmas for the statements of the submit handler\<close>

lemma insert_job_tables:
  "devices (insert_job j s) = devices s" "jobs (insert_job j s) = jobs s @ [j]"
  "ledger (insert_job j s) = ledger s" "budgets (insert_job j s) = budgets s"
  by (simp_all add: insert_job_def)

lemma set_device_status_tables:
  "jobs (set_device_status st u s) = jobs s" "ledger (set_device_status st u s) = ledger s"
  "budgets (set_device_status st u s) = budgets s"
  by (simp_all add: set_device_status_def)


lemma insert_ledger_tables:
  "devices (insert_ledger e s) = devices s" "jobs (insert_ledger e s) = jobs s"
  "ledger (insert_ledger e s) = ledger s @ [e]" "budgets (insert_ledger e s) = budgets s"
  by (simp_all add: insert_ledger_def)

lemma charge_sender_tables:
  "devices (charge_sender u a s) = devices s" "jobs (charge_sender u a s) = jobs s"
  "ledger (charge_sender u a s) = ledger s"
  by (simp_all add: charge_sender_def update_spent_def insert_budget_def Let_def
      split: option.splits)

lemma credit_receiver_tables:
  "devices (credit_receiver u a s) = devices s" "jobs (credit_receiver u a s) = jobs s"
  "ledger (credit_receiver u a s) = ledger s"
  by (simp_all add: credit_receiver_def update_earned_def insert_budget_def Let_def
      split: option.splits)

lemma charge_sender_budgets_cong:
  "budgets s = budgets t \<Longrightarrow> budgets (charge_sender u a s) = budgets (charge_sender u a t)"
  by (simp add: charge_sender_def update_spent_def insert_budget_def select_budget_def Let_def
      split: option.splits)

lemma credit_receiver_budgets_cong:
  "budgets s = budgets t \<Longrightarrow> budgets (credit_receiver u a s) = budgets (credit_receiver u a t)"
  by (simp add: credit_receiver_def update_earned_def insert_budget_def select_budget_def Let_def
      split: option.splits)

lemma update_rows_keys:
  "(\<And>y. key (g y) = key y) \<Longrightarrow> map key (map (\<lambda>y. if P y then g y else y) rows) = map key rows"
  by (induction rows) auto

lemma select_budget_None: "select_budget u s = None \<longleftrightarrow> u \<notin> set (map b_user_id (budgets s))"
  by (auto simp: select_budget_def find_None_iff)

lemma update_spent_users: "map b_user_id (budgets (update_spent v u s)) = map b_user_id (budgets s)"
  unfolding update_spent_def by (simp add: update_rows_keys)

lemma update_earned_users: "map b_user_id (budgets (update_earned v u s)) = map b_user_id (budgets s)"
  unfolding update_earned_def by (simp add: update_rows_keys)

lemma charge_sender_users:
  "map b_user_id (budgets (charge_sender u a s)) =
     (if u \<in> set (map b_user_id (budgets s)) then map b_user_id (budgets s)
      else map b_user_id (budgets s) @ [u])"
proof (cases "select_budget u s")
  case None
  then show ?thesis
    using select_budget_None [of u s]
    by (simp add: charge_sender_def update_spent_users insert_budget_def)
next
  case (Some b)
  then show ?thesis
    using select_budget_None [of u s]
    by (simp add: charge_sender_def update_spent_users)
qed

lemma credit_receiver_users:
  "map b_user_id (budgets (credit_receiver u a s)) =
     (if u \<in> set (map b_user_id (budgets s)) then map b_user_id (budgets s)
      else map b_user_id (budgets s) @ [u])"
proof (cases "select_budget u s")
  case None
  then show ?thesis
    using select_budget_None [of u s]
    by (simp add: credit_receiver_def update_earned_users insert_budget_def)
next
  case (Some b)
  then show ?thesis
    using select_budget_None [of u s]
    by (simp add: credit_receiver_def update_earned_users)
qed

section \<open>Job submission\<close>

lemma submit_job_accepted:
  assumes "sj_present r" "sj_lang_ok r" "sj_cost_usd r = JNum c"
  shows "submit_job r ident ledgerId epoch s =
    ((200, JObj [(''success'', JBool True), (''job_id'', JStr ident)]),
     credit_receiver (str_of (sj_device_id r)) (amountCents (json_number c))
       (charge_sender (str_of (sj_requester r)) (amountCents (json_number c))
         (insert_ledger
            \<lparr>l_id = ledgerId, l_job_id = ident, l_from_user = str_of (sj_requester r),
             l_to_user = str_of (sj_device_id r),
             l_amount_cents = d1_num (amountCents (json_number c)), l_created_at = epoch\<rparr>
            (set_device_status ''BUSY'' (str_of (sj_device_id r))
               (insert_job (new_job r ident) s)))))"
  using assms by (simp add: submit_job_def json_ok_def Let_def d1_bindable_def)









section \<open>Result reports\<close>

text \<open>
  C5 (as the code has it). UpdateJob with a \<open>job_id\<close> that matches no job row changes
  no table at all, and the caller receives the success response
  \<open>200 {success: true}\<close>: the handler has no NotFound answer.
\<close>

theorem update_job_unknown_id:
  assumes "truthy_str (uj_job_id r)"
    and "str_of (uj_job_id r) \<notin> set (map j_id (jobs s))"
  shows "update_job r s = ((200, JObj [(''success'', JBool True)]), s)"
proof -
  let ?k = "str_of (uj_job_id r)"
  let ?f = "\<lambda>j. j\<lparr>j_stdoutt := str_of (uj_stdout r), j_stderr := str_of (uj_stderr r),
                   j_status := FINISHED\<rparr>"
  have m: "map (\<lambda>j. if j_id j = ?k then ?f j else j) (jobs s) = jobs s"
    using assms(2) by (rule update_absent_row)
  have f: "find (\<lambda>j. j_id j = ?k) (jobs s) = None"
    using assms(2) by (rule find_absent_row)
  show ?thesis
    using assms(1) by (simp add: update_job_def Let_def m f json_ok_def)
qed

theorem update_job_unknown_id_witness:
  "truthy_str (uj_job_id (finish_req ''nope'')) \<and>
   str_of (uj_job_id (finish_req ''nope'')) \<notin> set (map j_id (jobs one_job_db)) \<and>
   update_job (finish_req ''nope'') one_job_db =
     ((200, JObj [(''success'', JBool True)]), one_job_db)"
proof -
  have t: "truthy_str (uj_job_id (finish_req ''nope''))"
    by (simp add: finish_req_def truthy_str_def)
  have "map j_id (jobs one_job_db) = [''j1'']"
    by code_simp
  then have n: "str_of (uj_job_id (finish_req ''nope'')) \<notin> set (map j_id (jobs one_job_db))"
    by (simp add: finish_req_def str_of_def)
  from update_job_unknown_id [OF t n] t n show ?thesis by simp
qed

theorem update_job_unknown_id_counterexample:
  "''nope'' \<notin> set (map j_id (jobs one_job_db)) \<and>
   fst (update_job (finish_req ''nope'') one_job_db) = (200, JObj [(''success'', JBool True)]) \<and>
   fst (fst (update_job (finish_req ''nope'') one_job_db)) \<noteq> 404"
  by code_simp

section \<open>Job listing\<close>

text \<open>
  C9 (as the code has it). ListJobsForUser answers with one object for each job whose
  requester is the user, in table order, and changes nothing; the fields of each object
  are \<open>id\<close>, \<open>filename\<close>, \<open>lang\<close>, \<open>status\<close>, \<open>stdoutt\<close> and \<open>stderr\<close>: the captured
  output travels under the column name \<open>stdoutt\<close>, not \<open>stdout\<close>.
\<close>

theorem list_jobs_projection:
  "list_jobs u s = ((200, JArr (map job_json (filter (\<lambda>j. j_requester j = u) (jobs s)))), s) \<and>
   obj_keys (job_json j) = [''id'', ''filename'', ''lang'', ''status'', ''stdoutt'', ''stderr''] \<and>
   job_json j =
     JObj [(''id'', JStr (j_id j)), (''filename'', JStr (j_filename j)),
           (''lang'', JStr (j_lang j)), (''status'', JStr (status_str (j_status j))),
           (''stdoutt'', JStr (j_stdoutt j)), (''stderr'', JStr (j_stderr j))]"
  by (simp add: list_jobs_def json_ok_def job_json_def obj_keys_def)

theorem list_jobs_projection_counterexample:
  "fst (list_jobs ''alice'' (run [UpdateJob (finish_req ''j1'')] one_job_db)) =
     (200, JArr [JObj [(''id'', JStr ''j1''), (''filename'', JStr ''a.py''),
                       (''lang'', JStr ''python''), (''status'', JStr ''FINISHED''),
                       (''stdoutt'', JStr ''1''), (''stderr'', JStr [])]]) \<and>
   fst (list_jobs ''alice'' (run [UpdateJob (finish_req ''j1'')] one_job_db)) \<noteq>
     (200, JArr [JObj [(''id'', JStr ''j1''), (''filename'', JStr ''a.py''),
                       (''lang'', JStr ''python''), (''status'', JStr ''FINISHED''),
                       (''stdout'', JStr ''1''), (''stderr'', JStr [])]])"
  by code_simp

section \<open>Rejected submissions\<close>

text \<open>
  C2 (the code at the failing input). A submission whose \<open>cost_usd\<close> is the string
  \<open>abc\<close> is answered with \<open>400 Invalid cost_usd value\<close>, and yet the store is not
  the one before the request: the job row has been appended with status QUEUED and
  Bob's device set to BUSY, with no ledger entry and no budget update for the job.
\<close>

theorem submit_job_invalid_cost_partial:
  "fst (submit_job (alice_req (JStr ''abc'')) ''j2'' ''l2'' ''1735689601''
          (run [UpdateJob (finish_req ''j1'')] one_job_db)) =
     (400, JObj [(''error'', JStr ''Invalid cost_usd value'')]) \<and>
   map d_status (devices (run [UpdateJob (finish_req ''j1'')] one_job_db)) = [''ACTIVE''] \<and>
   map j_id (jobs (run [UpdateJob (finish_req ''j1'')] one_job_db)) = [''j1''] \<and>
   map d_status (devices (snd (submit_job (alice_req (JStr ''abc'')) ''j2'' ''l2'' ''1735689601''
          (run [UpdateJob (finish_req ''j1'')] one_job_db)))) = [''BUSY''] \<and>
   map (\<lambda>j. (j_id j, j_status j))
     (jobs (snd (submit_job (alice_req (JStr ''abc'')) ''j2'' ''l2'' ''1735689601''
          (run [UpdateJob (finish_req ''j1'')] one_job_db)))) =
     [(''j1'', FINISHED), (''j2'', QUEUED)] \<and>
   map l_job_id (ledger (snd (submit_job (alice_req (JStr ''abc'')) ''j2'' ''l2'' ''1735689601''
          (run [UpdateJob (finish_req ''j1'')] one_job_db)))) = [''j1''] \<and>
   budgets (snd (submit_job (alice_req (JStr ''abc'')) ''j2'' ''l2'' ''1735689601''
          (run [UpdateJob (finish_req ''j1'')] one_job_db))) =
     budgets (run [UpdateJob (finish_req ''j1'')] one_job_db)"
  by code_simp

section \<open>Bounds on the rounding to a double\<close>

lemma two_pow_powi: "two_pow e = 2 powi e"
  by (simp add: two_pow_def power_int_def power_inverse inverse_eq_divide power_one_over)

lemma two_pow_pos: "0 < two_pow e"
  by (simp add: two_pow_powi)

lemma two_pow_mono: "a \<le> b \<Longrightarrow> two_pow a \<le> two_pow b"
  by (simp add: two_pow_powi power_int_increasing)

lemma two_pow_less_exp: "two_pow a < two_pow b \<Longrightarrow> a < b"
  using two_pow_mono [of b a] by (cases "a < b") auto

lemma two_pow_diff: "two_pow (a - b) = two_pow a / two_pow b"
  by (simp add: two_pow_powi power_int_diff)

lemma two_pow_add: "two_pow (a + b) = two_pow a * two_pow b"
  by (simp add: two_pow_powi power_int_add)

lemma two_pow_nat: "0 \<le> e \<Longrightarrow> two_pow e = 2 ^ nat e"
  by (simp add: two_pow_def)

lemma bitlen_bounds_rat:
  assumes "0 < p"
  shows "two_pow (bitlen p - 1) \<le> of_int p" and "of_int p < two_pow (bitlen p)"
proof -
  from assms have b: "1 \<le> bitlen p"
    by (simp add: bitlen_alt_def)
  from bitlen_bounds [OF assms] have l: "2 ^ nat (bitlen p - 1) \<le> p" and u: "p < 2 ^ nat (bitlen p)"
    by simp_all
  from l have "(of_int (2 ^ nat (bitlen p - 1)) :: rat) \<le> of_int p"
    by (simp only: of_int_le_iff)
  then show "two_pow (bitlen p - 1) \<le> of_int p"
    using b by (simp add: two_pow_nat)
  from u have "(of_int p :: rat) < of_int (2 ^ nat (bitlen p))"
    by (simp only: of_int_less_iff)
  then show "of_int p < two_pow (bitlen p)"
    using b by (simp add: two_pow_nat)
qed

lemma floor_log2_bounds:
  assumes "0 < a"
  shows "two_pow (floor_log2 a) \<le> a" and "a < two_pow (floor_log2 a + 1)"
proof -
  obtain p q where pq: "quotient_of a = (p, q)"
    by (cases "quotient_of a")
  then have q: "0 < q" and a: "a = of_int p / of_int q"
    by (simp_all add: quotient_of_denom_pos quotient_of_div)
  with assms have p: "0 < p"
    by (simp add: zero_less_divide_iff)
  define d where "d = bitlen p - bitlen q"
  have lo: "two_pow (d - 1) \<le> a"
  proof -
    have "two_pow (d - 1) = two_pow (bitlen p - 1) / two_pow (bitlen q)"
      by (simp add: d_def two_pow_diff [symmetric] algebra_simps)
    also have "\<dots> \<le> of_int p / of_int q"
      using bitlen_bounds_rat [OF p] bitlen_bounds_rat [OF q] q two_pow_pos [of "bitlen p - 1"]
      by (intro frac_le) simp_all
    finally show ?thesis by (simp add: a)
  qed
  have hi: "a < two_pow (d + 1)"
  proof -
    have "of_int p / of_int q < two_pow (bitlen p) / two_pow (bitlen q - 1)"
      using bitlen_bounds_rat [OF p] bitlen_bounds_rat [OF q] p two_pow_pos [of "bitlen q - 1"]
      by (intro frac_less) simp_all
    also have "\<dots> = two_pow (d + 1)"
      by (simp add: d_def two_pow_diff [symmetric] algebra_simps)
    finally show ?thesis by (simp add: a)
  qed
  have f: "floor_log2 a = (if two_pow d \<le> a then d else d - 1)"
    by (simp add: floor_log2_def pq d_def Let_def)
  show "two_pow (floor_log2 a) \<le> a"
    using lo by (simp add: f)
  show "a < two_pow (floor_log2 a + 1)"
    using hi by (simp add: f)
qed

lemma floor_log2_ge:
  assumes "two_pow k \<le> a"
  shows "k \<le> floor_log2 a"
proof -
  from assms two_pow_pos [of k] have "0 < a" by simp
  then have "a < two_pow (floor_log2 a + 1)"
    by (rule floor_log2_bounds)
  with assms have "two_pow k < two_pow (floor_log2 a + 1)" by simp
  then have "k < floor_log2 a + 1"
    by (rule two_pow_less_exp)
  then show ?thesis by simp
qed

lemma round_half_even_ge: "of_int k \<le> m \<Longrightarrow> k \<le> round_half_even m"
proof -
  assume "of_int k \<le> m"
  then have "k \<le> \<lfloor>m\<rfloor>" by (simp add: le_floor_iff)
  then show ?thesis by (simp add: round_half_even_def Let_def)
qed

lemma to_double_overflow:
  assumes "two_pow 1024 \<le> x"
  shows "to_double x = PosInf"
proof -
  from assms two_pow_pos [of 1024] have x: "0 < x" by simp
  from assms have "1024 \<le> floor_log2 x"
    by (rule floor_log2_ge)
  with x show ?thesis
    by (simp add: to_double_def js_signed_def Let_def)
qed

lemma to_double_lower:
  assumes "two_pow k \<le> x" and k: "- 1022 \<le> k"
  shows "to_double x = PosInf \<or> (\<exists>a. to_double x = Fin a \<and> two_pow k \<le> a)"
proof -
  from assms two_pow_pos [of k] have x: "0 < x" by simp
  define e where "e = floor_log2 x"
  from assms(1) have ke: "k \<le> e"
    unfolding e_def by (rule floor_log2_ge)
  define n where "n = round_half_even (x / two_pow (e - 52))"
  have "two_pow e \<le> x"
    unfolding e_def using x by (rule floor_log2_bounds)
  then have "two_pow e / two_pow (e - 52) \<le> x / two_pow (e - 52)"
    using two_pow_pos [of "e - 52"] by (simp add: divide_le_cancel)
  moreover have "two_pow e / two_pow (e - 52) = of_int (2 ^ 52)"
  proof -
    have "two_pow e / two_pow (e - 52) = two_pow (e - (e - 52))"
      by (simp only: two_pow_diff)
    also have "\<dots> = two_pow 52" by simp
    also have "\<dots> = of_int (2 ^ 52)" by (simp add: two_pow_def)
    finally show ?thesis .
  qed
  ultimately have "2 ^ 52 \<le> n"
    unfolding n_def by (intro round_half_even_ge) simp
  then have "(of_int (2 ^ 52) :: rat) \<le> of_int n"
    by (simp only: of_int_le_iff)
  then have "of_int (2 ^ 52) * two_pow (e - 52) \<le> of_int n * two_pow (e - 52)"
    using two_pow_pos [of "e - 52"] by (simp only: mult_le_cancel_right_pos)
  moreover have "of_int (2 ^ 52) * two_pow (e - 52) = two_pow e"
    using two_pow_add [of 52 "e - 52"] by (simp add: two_pow_def)
  ultimately have "two_pow e \<le> of_int n * two_pow (e - 52)"
    by simp
  with two_pow_mono [OF ke] have r: "two_pow k \<le> of_int n * two_pow (e - 52)"
    by simp
  have m: "max e (- 1022) = e"
    using ke k by simp
  show ?thesis
    using x r by (simp add: to_double_def js_signed_def Let_def e_def [symmetric] m n_def [symmetric])
qed

section \<open>Cost conversion\<close>

lemma one_cent_literal: "json_number (1 / 100) = Fin (5764607523034235 / 576460752303423488)"
  by code_simp

lemma amountCents_overflow:
  assumes "2 ^ 1018 \<le> q"
  shows "amountCents (json_number q) = PosInf"
proof -
  have t: "two_pow 1018 = 2 ^ 1018"
    by (simp add: two_pow_def)
  from assms have q: "two_pow 1018 \<le> q"
    by (simp only: t)
  have one: "1 \<le> two_pow 1018"
    using two_pow_mono [of 0 1018] by (simp add: two_pow_def)
  from to_double_lower [OF q]
  consider "json_number q = PosInf" | a where "json_number q = Fin a" "two_pow 1018 \<le> a"
    unfolding json_number_def by auto
  then show ?thesis
  proof cases
    case 1
    then show ?thesis
      by (simp add: amountCents_def one_cent_literal)
  next
    case 2
    from 2(2) one have "\<not> a < 5764607523034235 / 576460752303423488"
      by simp
    moreover have "two_pow 1024 \<le> a * 100"
    proof -
      have "two_pow 1024 = two_pow 1018 * 64"
        using two_pow_add [of 1018 6] by (simp add: two_pow_def)
      also have "\<dots> \<le> a * 100"
        using 2(2) two_pow_pos [of 1018] by (intro mult_mono) simp_all
      finally show ?thesis .
    qed
    then have "to_double (a * 100) = PosInf"
      by (rule to_double_overflow)
    ultimately show ?thesis
      using 2(1) by (simp add: amountCents_def one_cent_literal)
  qed
qed

lemma js_round_integer: "d1_num (js_round x) = Some a \<Longrightarrow> is_integer a"
  by (cases x) (auto simp: d1_num_def is_integer_def)

text \<open>
  C6 (as the code has it). For a numeric \<open>cost_usd\<close> of a valid submission the amount
  bound for the ledger is computed on doubles: \<open>Math.round(cost_usd * 100)\<close> when the
  cost is not below the double \<open>0.01\<close>, and \<open>Math.round(cost_usd * 10000) / 100\<close> when
  it is below. In the first case an amount that is stored is a whole number of cents;
  when the product overflows (as it does for every cost from \<open>2 ^ 1018\<close> on) the amount
  is an infinity, which the store keeps as NULL. In the second case the stored amount
  need not be whole.
\<close>

theorem submit_job_amount_cents:
  assumes "sj_present r" "sj_lang_ok r" "sj_cost_usd r = JNum q"
  shows "map l_amount_cents (ledger (snd (submit_job r ident ledgerId epoch s))) =
           map l_amount_cents (ledger s) @
           [d1_num (if js_less (json_number q) (json_number (1 / 100))
                    then js_div (js_round (js_mul (json_number q) 10000)) 100
                    else js_round (js_mul (json_number q) 100))] \<and>
         (\<not> js_less (json_number q) (json_number (1 / 100)) \<longrightarrow>
            (\<forall>a. last (map l_amount_cents (ledger (snd (submit_job r ident ledgerId epoch s)))) =
                   Some a \<longrightarrow> is_integer a)) \<and>
         (2 ^ 1018 \<le> q \<longrightarrow>
            last (map l_amount_cents (ledger (snd (submit_job r ident ledgerId epoch s)))) = None)"
proof -
  have led: "map l_amount_cents (ledger (snd (submit_job r ident ledgerId epoch s))) =
           map l_amount_cents (ledger s) @ [d1_num (amountCents (json_number q))]"
    unfolding submit_job_accepted [OF assms] snd_conv
    by (simp add: credit_receiver_tables charge_sender_tables insert_ledger_tables
        set_device_status_tables insert_job_tables)
  show ?thesis
  proof (intro conjI impI allI)
    show "map l_amount_cents (ledger (snd (submit_job r ident ledgerId epoch s))) =
           map l_amount_cents (ledger s) @
           [d1_num (if js_less (json_number q) (json_number (1 / 100))
                    then js_div (js_round (js_mul (json_number q) 10000)) 100
                    else js_round (js_mul (json_number q) 100))]"
      unfolding led by (simp add: amountCents_def)
  next
    fix a
    assume "\<not> js_less (json_number q) (json_number (1 / 100))"
      and "last (map l_amount_cents (ledger (snd (submit_job r ident ledgerId epoch s)))) = Some a"
    then have "d1_num (js_round (js_mul (json_number q) 100)) = Some a"
      unfolding led by (simp add: amountCents_def)
    then show "is_integer a"
      by (rule js_round_integer)
  next
    assume "2 ^ 1018 \<le> q"
    then have "amountCents (json_number q) = PosInf"
      by (rule amountCents_overflow)
    then show "last (map l_amount_cents (ledger (snd (submit_job r ident ledgerId epoch s)))) =
               None"
      unfolding led by (simp add: d1_num_def)
  qed
qed

theorem submit_job_amount_cents_witness:
  "sj_present (alice_req (JNum (1005 / 1000))) \<and> sj_lang_ok (alice_req (JNum (1005 / 1000))) \<and>
   \<not> js_less (json_number (1005 / 1000)) (json_number (1 / 100)) \<and>
   map l_amount_cents
     (ledger (snd (submit_job (alice_req (JNum (1005 / 1000))) ''j1'' ''l1'' ''1735689600''
                     empty_db))) = [Some 100] \<and>
   is_integer 100 \<and>
   sj_present (alice_req (JNum (10 ^ 307))) \<and> sj_lang_ok (alice_req (JNum (10 ^ 307))) \<and>
   (2 :: rat) ^ 1018 \<le> 10 ^ 307 \<and>
   last (map l_amount_cents
     (ledger (snd (submit_job (alice_req (JNum (10 ^ 307))) ''j1'' ''l1'' ''1735689600''
                     empty_db)))) = None"
proof -
  have p: "sj_present (alice_req (JNum c))" for c
    by (simp add: sj_present_def alice_req_def truthy_str_def)
  have l: "sj_lang_ok (alice_req (JNum c))" for c
    by (simp add: sj_lang_ok_def alice_req_def)
  have c: "sj_cost_usd (alice_req (JNum c)) = JNum c" for c
    by (simp add: alice_req_def)
  have n: "\<not> js_less (json_number (1005 / 1000)) (json_number (1 / 100))"
    by code_simp
  note th = submit_job_amount_cents [OF p l c, of "1005 / 1000" "''j1''" "''l1''"
      "''1735689600''" empty_db]
  have v: "map l_amount_cents
     (ledger (snd (submit_job (alice_req (JNum (1005 / 1000))) ''j1'' ''l1'' ''1735689600''
                     empty_db))) = [Some 100]"
    by (rule trans [OF th [THEN conjunct1]]) code_simp
  from th [THEN conjunct2, THEN conjunct1] n v have i: "is_integer 100"
    by simp
  have b: "(2 :: rat) ^ 1018 \<le> 10 ^ 307"
    by simp
  note big = submit_job_amount_cents [OF p l c, of "10 ^ 307" "''j1''" "''l1''"
      "''1735689600''" empty_db]
  from big [THEN conjunct2, THEN conjunct2] b
  have w: "last (map l_amount_cents
     (ledger (snd (submit_job (alice_req (JNum (10 ^ 307))) ''j1'' ''l1'' ''1735689600''
                     empty_db)))) = None"
    by (rule mp)
  from p l n v i b w show ?thesis by blast
qed

theorem submit_job_amount_cents_counterexample:
  "map l_amount_cents
     (ledger (snd (submit_job (alice_req (JNum (5 / 1000))) ''j1'' ''l1'' ''1735689600''
                     empty_db))) = [Some (1 / 2)] \<and>
   \<not> is_integer (1 / 2) \<and>
   map l_amount_cents
     (ledger (snd (submit_job (alice_req (JNum (15 / 100000))) ''j1'' ''l1'' ''1735689600''
                     empty_db))) = [Some (5764607523034235 / 576460752303423488)] \<and>
   \<not> is_integer (5764607523034235 / 576460752303423488)"
  by code_simp

section \<open>Device registry\<close>


















section \<open>Claiming a job\<close>

lemma find_first_match:
  "\<forall>y \<in> set pre. \<not> P y \<Longrightarrow> P x \<Longrightarrow> find P (pre @ x # post) = Some x"
  by (induction pre) auto

lemma find_no_match: "\<forall>y \<in> set rows. \<not> P y \<Longrightarrow> find P rows = None"
  by (simp add: find_None_iff)

text \<open>
  C4. With job ids unique: if some QUEUED job is assigned to the polling device,
  CheckForJobs takes the first such job in insertion order (the oldest), sets that job
  and no other row to RUNNING, and answers with its \<open>{id, lang, code, filename}\<close>; if
  there is none it answers \<open>{job: null}\<close> and the store is unchanged.
\<close>

theorem check_for_jobs_oldest:
  assumes "unique_jobs s"
  shows "(jobs s = pre @ q # post \<and> j_device_id q = u \<and> j_status q = QUEUED \<and>
          (\<forall>j \<in> set pre. \<not> (j_device_id j = u \<and> j_status j = QUEUED)) \<longrightarrow>
            check_for_jobs u s =
              ((200, JObj [(''job'', JObj [(''id'', JStr (j_id q)), (''lang'', JStr (j_lang q)),
                                          (''code'', JStr (j_code q)),
                                          (''filename'', JStr (j_filename q))])]),
               s\<lparr>jobs := pre @ q\<lparr>j_status := RUNNING\<rparr> # post\<rparr>)) \<and>
         ((\<forall>j \<in> set (jobs s). \<not> (j_device_id j = u \<and> j_status j = QUEUED)) \<longrightarrow>
            check_for_jobs u s = ((200, JObj [(''job'', JNull)]), s))"
proof (intro conjI impI)
  assume h: "jobs s = pre @ q # post \<and> j_device_id q = u \<and> j_status q = QUEUED \<and>
          (\<forall>j \<in> set pre. \<not> (j_device_id j = u \<and> j_status j = QUEUED))"
  then have f: "find (\<lambda>j. j_device_id j = u \<and> j_status j = QUEUED) (jobs s) = Some q"
    by (simp add: find_first_match)
  from assms h have d: "distinct (map j_id (pre @ q # post))"
    by (simp add: unique_jobs_def)
  then have a: "j_id q \<notin> set (map j_id pre)" and b: "j_id q \<notin> set (map j_id post)"
    by auto
  have "map (\<lambda>j. if j_id j = j_id q then j\<lparr>j_status := RUNNING\<rparr> else j) pre = pre"
    using a by (rule update_absent_row)
  moreover
  have "map (\<lambda>j. if j_id j = j_id q then j\<lparr>j_status := RUNNING\<rparr> else j) post = post"
    using b by (rule update_absent_row)
  ultimately have m: "map (\<lambda>j. if j_id j = j_id q then j\<lparr>j_status := RUNNING\<rparr> else j) (jobs s) =
                pre @ q\<lparr>j_status := RUNNING\<rparr> # post"
    using h by simp
  show "check_for_jobs u s =
              ((200, JObj [(''job'', JObj [(''id'', JStr (j_id q)), (''lang'', JStr (j_lang q)),
                                          (''code'', JStr (j_code q)),
                                          (''filename'', JStr (j_filename q))])]),
               s\<lparr>jobs := pre @ q\<lparr>j_status := RUNNING\<rparr> # post\<rparr>)"
    by (simp add: check_for_jobs_def f m json_ok_def queued_json_def)
next
  assume "\<forall>j \<in> set (jobs s). \<not> (j_device_id j = u \<and> j_status j = QUEUED)"
  then have "find (\<lambda>j. j_device_id j = u \<and> j_status j = QUEUED) (jobs s) = None"
    by (rule find_no_match)
  then show "check_for_jobs u s = ((200, JObj [(''job'', JNull)]), s)"
    by (simp add: check_for_jobs_def json_ok_def)
qed

theorem check_for_jobs_oldest_witness:
  "unique_jobs two_jobs_db \<and>
   jobs two_jobs_db = [] @ new_job (alice_req (JNum 1)) ''j1'' # [new_job (alice_req (JNum 2)) ''j2''] \<and>
   j_device_id (new_job (alice_req (JNum 1)) ''j1'') = ''bob'' \<and>
   j_status (new_job (alice_req (JNum 1)) ''j1'') = QUEUED \<and>
   check_for_jobs ''bob'' two_jobs_db =
     ((200, JObj [(''job'', JObj [(''id'', JStr ''j1''), (''lang'', JStr ''python''),
                                 (''code'', JStr ''print(1)''), (''filename'', JStr ''a.py'')])]),
      two_jobs_db\<lparr>jobs := [(new_job (alice_req (JNum 1)) ''j1'')\<lparr>j_status := RUNNING\<rparr>,
                            new_job (alice_req (JNum 2)) ''j2'']\<rparr>) \<and>
   ''carol'' \<notin> set (map j_device_id (jobs two_jobs_db)) \<and>
   check_for_jobs ''carol'' two_jobs_db = ((200, JObj [(''job'', JNull)]), two_jobs_db)"
proof -
  have js: "jobs two_jobs_db =
      [] @ new_job (alice_req (JNum 1)) ''j1'' # [new_job (alice_req (JNum 2)) ''j2'']"
    by code_simp
  have u: "unique_jobs two_jobs_db"
    unfolding unique_jobs_def js by (simp add: new_job_def)
  have d: "j_device_id (new_job (alice_req (JNum 1)) ''j1'') = ''bob''"
    by (simp add: new_job_def alice_req_def str_of_def)
  have q: "j_status (new_job (alice_req (JNum 1)) ''j1'') = QUEUED"
    by (simp add: new_job_def)
  have c: "''carol'' \<notin> set (map j_device_id (jobs two_jobs_db))"
    unfolding js by (simp add: new_job_def alice_req_def str_of_def)
  from check_for_jobs_oldest [OF u, of "[]" "new_job (alice_req (JNum 1)) ''j1''"
      "[new_job (alice_req (JNum 2)) ''j2'']" "''bob''"] js d q
  have 1: "check_for_jobs ''bob'' two_jobs_db =
     ((200, JObj [(''job'', JObj [(''id'', JStr ''j1''), (''lang'', JStr ''python''),
                                 (''code'', JStr ''print(1)''), (''filename'', JStr ''a.py'')])]),
      two_jobs_db\<lparr>jobs := [(new_job (alice_req (JNum 1)) ''j1'')\<lparr>j_status := RUNNING\<rparr>,
                            new_job (alice_req (JNum 2)) ''j2'']\<rparr>)"
    by (simp add: new_job_def alice_req_def str_of_def)
  from check_for_jobs_oldest [OF u, of "[]" "new_job (alice_req (JNum 1)) ''j1''"
      "[new_job (alice_req (JNum 2)) ''j2'']" "''carol''"]
  have "(\<forall>j \<in> set (jobs two_jobs_db). \<not> (j_device_id j = ''carol'' \<and> j_status j = QUEUED)) \<longrightarrow>
        check_for_jobs ''carol'' two_jobs_db = ((200, JObj [(''job'', JNull)]), two_jobs_db)"
    by (rule conjunct2)
  moreover from c
  have "\<forall>j \<in> set (jobs two_jobs_db). \<not> (j_device_id j = ''carol'' \<and> j_status j = QUEUED)"
    by (metis image_eqI set_map)
  ultimately
  have 2: "check_for_jobs ''carol'' two_jobs_db = ((200, JObj [(''job'', JNull)]), two_jobs_db)"
    by (rule mp)
  from u js d q 1 c 2 show ?thesis by blast
qed

section \<open>Job lifecycle\<close>

lemma find_update_rows:
  "(\<And>y. key (g y) = key y) \<Longrightarrow>
   find (\<lambda>y. key y = k) (map (\<lambda>y. if P y then g y else y) rows) =
     map_option (\<lambda>y. if P y then g y else y) (find (\<lambda>y. key y = k) rows)"
  by (induction rows) auto

lemma find_append_Some: "find P xs = Some x \<Longrightarrow> find P (xs @ ys) = Some x"
  by (induction xs) (auto split: if_splits)

lemma job_status_of_Some:
  "job_status_of k s = Some st \<longleftrightarrow>
     (\<exists>j. find (\<lambda>j. j_id j = k) (jobs s) = Some j \<and> j_status j = st)"
  by (auto simp: job_status_of_def)

lemma check_for_jobs_status:
  assumes "unique_jobs s" "job_status_of k s = Some st"
  shows "job_status_of k (snd (check_for_jobs u s)) = Some st \<or>
         st = QUEUED \<and> job_status_of k (snd (check_for_jobs u s)) = Some RUNNING"
proof (cases "find (\<lambda>j. j_device_id j = u \<and> j_status j = QUEUED) (jobs s)")
  case None
  with assms(2) show ?thesis by (simp add: check_for_jobs_def)
next
  case (Some q)
  then have q: "q \<in> set (jobs s)" "j_status q = QUEUED"
    by (auto simp: find_Some_iff)
  from assms(2) obtain j where j: "find (\<lambda>j. j_id j = k) (jobs s) = Some j" "j_status j = st"
    by (auto simp: job_status_of_Some)
  have fq: "find (\<lambda>y. j_id y = j_id q) (jobs s) = Some q"
    using assms(1) q(1) unfolding unique_jobs_def by (rule find_unique_row)
  have k: "j_id j = k"
    using j(1) by (auto simp: find_Some_iff)
  have upd: "find (\<lambda>y. j_id y = k)
               (map (\<lambda>y. if j_id y = j_id q then y\<lparr>j_status := RUNNING\<rparr> else y) (jobs s)) =
             Some (if j_id j = j_id q then j\<lparr>j_status := RUNNING\<rparr> else j)"
    by (simp add: find_update_rows [where key = j_id] j(1))
  show ?thesis
  proof (cases "j_id j = j_id q")
    case True
    with fq j(1) k have "j = q" by simp
    with q(2) j(2) have "st = QUEUED" by simp
    moreover have "job_status_of k (snd (check_for_jobs u s)) = Some RUNNING"
      using Some True upd by (simp add: check_for_jobs_def job_status_of_def)
    ultimately show ?thesis by simp
  next
    case False
    then have "job_status_of k (snd (check_for_jobs u s)) = Some st"
      using Some upd j(2) by (simp add: check_for_jobs_def job_status_of_def)
    then show ?thesis by simp
  qed
qed

lemma update_job_status:
  assumes "job_status_of k s = Some st"
  shows "job_status_of k (snd (update_job r s)) = Some st \<or>
         job_status_of k (snd (update_job r s)) = Some FINISHED"
proof (cases "truthy_str (uj_job_id r)")
  case False
  with assms show ?thesis by (simp add: update_job_def)
next
  case True
  let ?g = "\<lambda>j. j\<lparr>j_stdoutt := str_of (uj_stdout r), j_stderr := str_of (uj_stderr r),
                   j_status := FINISHED\<rparr>"
  from assms obtain j where j: "find (\<lambda>j. j_id j = k) (jobs s) = Some j" "j_status j = st"
    by (auto simp: job_status_of_Some)
  have "jobs (snd (update_job r s)) =
        map (\<lambda>y. if j_id y = str_of (uj_job_id r) then ?g y else y) (jobs s)"
    using True by (simp add: update_job_def Let_def set_device_status_tables split: option.splits)
  then have "find (\<lambda>y. j_id y = k) (jobs (snd (update_job r s))) =
        Some (if j_id j = str_of (uj_job_id r) then ?g j else j)"
    by (simp add: find_update_rows [where key = j_id and g = ?g] j(1))
  then show ?thesis
    using j(2) by (simp add: job_status_of_def)
qed

lemma submit_job_jobs:
  "jobs (snd (submit_job r ident ledgerId epoch s)) = jobs s \<or>
   jobs (snd (submit_job r ident ledgerId epoch s)) = jobs s @ [new_job r ident]"
  by (simp add: submit_job_def Let_def credit_receiver_tables charge_sender_tables
      insert_ledger_tables set_device_status_tables insert_job_tables split: json.splits)

lemma submit_job_status:
  assumes "job_status_of k s = Some st"
  shows "job_status_of k (snd (submit_job r ident ledgerId epoch s)) = Some st"
proof -
  from assms obtain j where j: "find (\<lambda>j. j_id j = k) (jobs s) = Some j" "j_status j = st"
    by (auto simp: job_status_of_Some)
  then have "find (\<lambda>j. j_id j = k) (jobs s @ [new_job r ident]) = Some j"
    by (simp add: find_append_Some)
  with j submit_job_jobs [of r ident ledgerId epoch s] show ?thesis
    by (auto simp: job_status_of_def)
qed

lemma heartbeat_jobs: "jobs (snd (heartbeat r ident now s)) = jobs s"
  by (simp add: heartbeat_def Let_def split: option.splits)

text \<open>What one request can do to the status of a job that exists.\<close>

lemma handle_status:
  assumes "unique_jobs s" "job_status_of k s = Some st"
  shows "job_status_of k (snd (handle q s)) = Some st \<or>
         (\<exists>u. q = CheckForJobs u) \<and> st = QUEUED \<and>
           job_status_of k (snd (handle q s)) = Some RUNNING \<or>
         (\<exists>r. q = UpdateJob r) \<and> job_status_of k (snd (handle q s)) = Some FINISHED"
proof (cases q)
  case (Heartbeat r ident now)
  with assms(2) show ?thesis by (simp add: job_status_of_def heartbeat_jobs)
next
  case ListDevices
  with assms(2) show ?thesis by (simp add: list_devices_def)
next
  case (ListJobs u)
  with assms(2) show ?thesis by (simp add: list_jobs_def)
next
  case (CheckForJobs u)
  with check_for_jobs_status [OF assms, of u] show ?thesis by auto
next
  case (SubmitJob r ident ledgerId epoch)
  with submit_job_status [OF assms(2)] show ?thesis by simp
next
  case (UpdateJob r)
  with update_job_status [OF assms(2), of r] show ?thesis by auto
next
  case (GetBudget u)
  with assms(2) show ?thesis by (simp add: get_budget_def split: option.splits)
qed

lemma handle_unique_jobs:
  assumes "unique_jobs s" "fresh_ids [q] s"
  shows "unique_jobs (snd (handle q s))"
proof (cases q)
  case (Heartbeat r ident now)
  with assms(1) show ?thesis by (simp add: unique_jobs_def heartbeat_jobs)
next
  case ListDevices
  with assms(1) show ?thesis by (simp add: list_devices_def)
next
  case (ListJobs u)
  with assms(1) show ?thesis by (simp add: list_jobs_def)
next
  case (CheckForJobs u)
  have "\<And>k. map j_id (map (\<lambda>y. if j_id y = k then y\<lparr>j_status := RUNNING\<rparr> else y) (jobs s)) =
        map j_id (jobs s)"
    by (rule update_rows_keys) simp
  with assms(1) CheckForJobs show ?thesis
    by (simp add: check_for_jobs_def unique_jobs_def del: map_map split: option.splits)
next
  case (SubmitJob r ident ledgerId epoch)
  with assms(2) have "ident \<notin> set (map j_id (jobs s))" by simp
  with assms(1) have "distinct (map j_id (jobs s @ [new_job r ident]))"
    by (simp add: unique_jobs_def new_job_def)
  with assms(1) submit_job_jobs [of r ident ledgerId epoch s] SubmitJob show ?thesis
    by (auto simp: unique_jobs_def)
next
  case (UpdateJob r)
  let ?g = "\<lambda>j. j\<lparr>j_stdoutt := str_of (uj_stdout r), j_stderr := str_of (uj_stderr r),
                   j_status := FINISHED\<rparr>"
  have "map j_id (map (\<lambda>y. if j_id y = str_of (uj_job_id r) then ?g y else y) (jobs s)) =
        map j_id (jobs s)"
    by (rule update_rows_keys) simp
  moreover have "jobs (snd (update_job r s)) = jobs s \<or>
        jobs (snd (update_job r s)) =
          map (\<lambda>y. if j_id y = str_of (uj_job_id r) then ?g y else y) (jobs s)"
    by (simp add: update_job_def Let_def set_device_status_tables split: option.splits)
  ultimately show ?thesis
    using assms(1) UpdateJob unfolding unique_jobs_def by (auto simp del: map_map)
next
  case (GetBudget u)
  with assms(1) show ?thesis by (simp add: get_budget_def split: option.splits)
qed

lemma run_status_monotone:
  assumes "unique_jobs s" "fresh_ids qs s" "job_status_of k s = Some st"
  shows "\<exists>st'. job_status_of k (run qs s) = Some st' \<and> status_rank st \<le> status_rank st'"
  using assms
proof (induction qs arbitrary: s st)
  case Nil
  then show ?case by simp
next
  case (Cons q qs)
  from Cons.prems(2) have fq: "fresh_ids [q] s" and fqs: "fresh_ids qs (snd (handle q s))"
    by simp_all
  have u: "unique_jobs (snd (handle q s))"
    using Cons.prems(1) fq by (rule handle_unique_jobs)
  from handle_status [OF Cons.prems(1) Cons.prems(3), of q]
  obtain st1 where s1: "job_status_of k (snd (handle q s)) = Some st1"
    and le: "status_rank st \<le> status_rank st1"
    by (cases st) auto
  from Cons.IH [OF u fqs s1] obtain st' where
    "job_status_of k (run qs (snd (handle q s))) = Some st'" "status_rank st1 \<le> status_rank st'"
    by blast
  with le show ?case by auto
qed

text \<open>
  C3 (as the code has it). With job ids unique and every generated id fresh, the
  status of a job never moves backward along QUEUED, RUNNING, FINISHED in any run of
  requests. A single request leaves the status of an existing job as it is, except that
  CheckForJobs may move it from QUEUED to RUNNING and UpdateJob sets FINISHED whatever
  the status was: nothing keeps a job from skipping RUNNING.
\<close>

theorem job_status_never_backward:
  assumes "unique_jobs s" "fresh_ids qs s" "job_status_of k s = Some st"
  shows "(\<exists>st'. job_status_of k (run qs s) = Some st' \<and> status_rank st \<le> status_rank st') \<and>
         (job_status_of k (snd (handle q s)) = Some st \<or>
          (\<exists>u. q = CheckForJobs u) \<and> st = QUEUED \<and>
            job_status_of k (snd (handle q s)) = Some RUNNING \<or>
          (\<exists>r. q = UpdateJob r) \<and> job_status_of k (snd (handle q s)) = Some FINISHED)"
  using run_status_monotone [OF assms] handle_status [OF assms(1) assms(3), of q]
  by (rule conjI)

theorem job_status_never_backward_witness:
  "unique_jobs one_job_db \<and>
   fresh_ids [CheckForJobs ''bob'', SubmitJob (alice_req (JNum 2)) ''j2'' ''l2'' ''1735689660'',
              UpdateJob (finish_req ''j1'')] one_job_db \<and>
   job_status_of ''j1'' one_job_db = Some QUEUED \<and>
   (\<exists>st'. job_status_of ''j1''
             (run [CheckForJobs ''bob'',
                   SubmitJob (alice_req (JNum 2)) ''j2'' ''l2'' ''1735689660'',
                   UpdateJob (finish_req ''j1'')] one_job_db) = Some st' \<and>
           status_rank QUEUED \<le> status_rank st')"
proof -
  have u: "unique_jobs one_job_db"
    by code_simp
  have f: "fresh_ids [CheckForJobs ''bob'',
                      SubmitJob (alice_req (JNum 2)) ''j2'' ''l2'' ''1735689660'',
                      UpdateJob (finish_req ''j1'')] one_job_db"
    by code_simp
  have q: "job_status_of ''j1'' one_job_db = Some QUEUED"
    by code_simp
  from job_status_never_backward [OF u f q] u f q show ?thesis by blast
qed

theorem job_status_never_backward_counterexample:
  "job_status_of ''j1'' one_job_db = Some QUEUED \<and>
   job_status_of ''j1'' (run [UpdateJob (finish_req ''j1'')] one_job_db) = Some FINISHED"
  by code_simp

section \<open>Budget rows\<close>

lemma charge_sender_unique:
  "distinct (map b_user_id (budgets s)) \<Longrightarrow>
   distinct (map b_user_id (budgets (charge_sender u a s)))"
  by (simp add: charge_sender_users)

lemma credit_receiver_unique:
  "distinct (map b_user_id (budgets s)) \<Longrightarrow>
   distinct (map b_user_id (budgets (credit_receiver u a s)))"
  by (simp add: credit_receiver_users)

lemma submit_job_unique_budgets:
  assumes "unique_budgets s"
  shows "unique_budgets (snd (submit_job r ident ledgerId epoch s))"
proof (cases "sj_present r \<and> sj_lang_ok r \<and> (\<exists>c. sj_cost_usd r = JNum c)")
  case False
  then have "budgets (snd (submit_job r ident ledgerId epoch s)) = budgets s"
    by (auto simp: submit_job_def Let_def set_device_status_tables insert_job_tables
        split: json.splits)
  with assms show ?thesis by (simp add: unique_budgets_def)
next
  case True
  then obtain c where p: "sj_present r" "sj_lang_ok r" "sj_cost_usd r = JNum c"
    by blast
  define s3 where "s3 = insert_ledger
      \<lparr>l_id = ledgerId, l_job_id = ident, l_from_user = str_of (sj_requester r),
       l_to_user = str_of (sj_device_id r),
       l_amount_cents = d1_num (amountCents (json_number c)), l_created_at = epoch\<rparr>
      (set_device_status ''BUSY'' (str_of (sj_device_id r)) (insert_job (new_job r ident) s))"
  have eq: "snd (submit_job r ident ledgerId epoch s) =
      credit_receiver (str_of (sj_device_id r)) (amountCents (json_number c))
        (charge_sender (str_of (sj_requester r)) (amountCents (json_number c)) s3)"
    by (simp add: submit_job_accepted [OF p] s3_def)
  have "budgets s3 = budgets s"
    by (simp add: s3_def insert_ledger_tables set_device_status_tables insert_job_tables)
  with assms have "distinct (map b_user_id (budgets s3))"
    by (simp add: unique_budgets_def)
  then show ?thesis
    unfolding eq unique_budgets_def
    by (intro credit_receiver_unique charge_sender_unique)
qed

lemma handle_unique_budgets:
  assumes "unique_budgets s"
  shows "unique_budgets (snd (handle q s))"
proof (cases q)
  case (Heartbeat r ident now)
  have "budgets (snd (heartbeat r ident now s)) = budgets s"
    by (simp add: heartbeat_def Let_def split: option.splits)
  with assms Heartbeat show ?thesis by (simp add: unique_budgets_def)
next
  case ListDevices
  with assms show ?thesis by (simp add: list_devices_def)
next
  case (ListJobs u)
  with assms show ?thesis by (simp add: list_jobs_def)
next
  case (CheckForJobs u)
  have "budgets (snd (check_for_jobs u s)) = budgets s"
    by (simp add: check_for_jobs_def split: option.splits)
  with assms CheckForJobs show ?thesis by (simp add: unique_budgets_def)
next
  case (SubmitJob r ident ledgerId epoch)
  with assms show ?thesis by (simp add: submit_job_unique_budgets)
next
  case (UpdateJob r)
  have "budgets (snd (update_job r s)) = budgets s"
    by (simp add: update_job_def Let_def set_device_status_tables split: option.splits)
  with assms UpdateJob show ?thesis by (simp add: unique_budgets_def)
next
  case (GetBudget u)
  with assms show ?thesis by (simp add: get_budget_def split: option.splits)
qed

lemma run_unique_budgets: "unique_budgets s \<Longrightarrow> unique_budgets (run qs s)"
  by (induction qs arbitrary: s) (simp_all add: handle_unique_budgets)


section \<open>Budgets after two submissions\<close>

text \<open>
  C1 (the code at the failing input). Alice submits a job costing one dollar to Bob,
  then Bob submits one costing one dollar to Alice. Alice's budget row was created when
  she was the sender, with \<open>earned_cents = 0\<close>; the ledger holds a single entry of 100
  cents with Alice as receiver; yet her stored \<open>earned_cents\<close> is 1100, because the
  stored 0 is replaced by 1000 when she first receives. Her \<open>spent_cents\<close> is the
  negated ledger total.
\<close>

theorem budgets_after_exchange:
  "budgets (run [SubmitJob (alice_req (JNum 1)) ''j1'' ''l1'' ''1735689600''] empty_db) =
     [\<lparr>b_user_id = ''alice'', b_spent_cents = Some (- 100), b_earned_cents = Some 0\<rparr>,
      \<lparr>b_user_id = ''bob'', b_spent_cents = Some 0, b_earned_cents = Some 1100\<rparr>] \<and>
   budgets (run [SubmitJob (alice_req (JNum 1)) ''j1'' ''l1'' ''1735689600'',
                 SubmitJob (bob_req (JNum 1)) ''j2'' ''l2'' ''1735689601''] empty_db) =
     [\<lparr>b_user_id = ''alice'', b_spent_cents = Some (- 100), b_earned_cents = Some 1100\<rparr>,
      \<lparr>b_user_id = ''bob'', b_spent_cents = Some (- 100), b_earned_cents = Some 1100\<rparr>] \<and>
   sum_from ''alice'' (run [SubmitJob (alice_req (JNum 1)) ''j1'' ''l1'' ''1735689600'',
                 SubmitJob (bob_req (JNum 1)) ''j2'' ''l2'' ''1735689601''] empty_db) = 100 \<and>
   sum_to ''alice'' (run [SubmitJob (alice_req (JNum 1)) ''j1'' ''l1'' ''1735689600'',
                 SubmitJob (bob_req (JNum 1)) ''j2'' ''l2'' ''1735689601''] empty_db) = 100"
  by code_simp

end
